theory Spec2Isabelle
  imports Main
begin

section \<open>The job table of tsh (online.c)\<close>

text \<open>
  The shell keeps its jobs in a global array \<open>job_list\<close> of \<open>MAXJOBS\<close> structs and a
  global counter \<open>nextjid\<close>. The array is a list of records, a C \<open>int\<close> and a \<open>pid_t\<close> are
  mathematical integers (the counter moves by one step per call, so no value the job table
  computes comes near \<open>2^31\<close>), a C string is a \<open>string\<close>. The globals the functions read
  and write are the fields of the record \<open>shell\<close>; what a function prints to standard
  output and standard error is appended to \<open>stdout\<close> and \<open>stderr\<close>, and every call of
  \<open>kill\<close> is logged in \<open>kills\<close> as the pair of its two arguments.
\<close>

definition MAXJOBS :: int where "MAXJOBS = 16"

definition UNDEF :: int where "UNDEF = 0"
definition FG :: int where "FG = 1"
definition BG :: int where "BG = 2"
definition ST :: int where "ST = 3"

record job_t =
  pid :: int
  jid :: int
  state :: int
  cmdline :: string

datatype signal = SIGINT | SIGTSTP | SIGCONT | SIGQUIT

record shell =
  job_list :: "job_t list"
  nextjid :: int
  verbose :: bool
  stdout :: string
  stderr :: string
  kills :: "(int \<times> signal) list"

text \<open>How a function of the shell ends: it returns to its caller, the process calls
  \<open>exit\<close>, it reads through a null pointer, or it is spinning in the loop that waits for
  the foreground job (which only a signal handler can end).\<close>

datatype outcome = Returns | Exits int | NullDeref | Waits

subsection \<open>Formatting\<close>

definition newline :: string where "newline = [CHR 0x0A]"

fun digits :: "nat \<Rightarrow> string" where
  "digits n = (if n < 10 then [''0123456789'' ! n]
               else digits (n div 10) @ [''0123456789'' ! (n mod 10)])"

declare digits.simps [simp del]

text \<open>The conversion \<open>%d\<close> of \<open>printf\<close>.\<close>

definition show_int :: "int \<Rightarrow> string" where
  "show_int i = (if i < 0 then CHR ''-'' # digits (nat (- i)) else digits (nat i))"

subsection \<open>Scanning the table\<close>

text \<open>Every lookup of the source is the loop
  \<^verbatim>\<open>for (i = 0; i < MAXJOBS; i++) if (<test on job_list[i]>) ...\<close>
  that acts on the first slot passing the test. \<open>scan\<close> returns the index of that slot,
  in a table that is the list of its \<open>MAXJOBS\<close> slots.\<close>

fun scan :: "(job_t \<Rightarrow> bool) \<Rightarrow> job_t list \<Rightarrow> nat option" where
  "scan P [] = None"
| "scan P (j # js) = (if P j then Some 0 else map_option Suc (scan P js))"

definition clearjob :: "job_t \<Rightarrow> job_t" where
  "clearjob j = j\<lparr>pid := 0, jid := 0, state := UNDEF, cmdline := ''''\<rparr>"

definition initjobs :: "job_t list \<Rightarrow> job_t list" where
  "initjobs jl = map clearjob jl"

fun maxjid_from :: "int \<Rightarrow> job_t list \<Rightarrow> int" where
  "maxjid_from m [] = m"
| "maxjid_from m (j # js) = maxjid_from (if jid j > m then jid j else m) js"

definition maxjid :: "job_t list \<Rightarrow> int" where
  "maxjid jl = maxjid_from 0 jl"

text \<open>\<open>addjob\<close> returns 1 or 0 as the source does. \<open>pg\<close> stands for the system call
  \<open>getpgid\<close>, which only the verbose message reads.\<close>

definition addjob :: "(int \<Rightarrow> int) \<Rightarrow> shell \<Rightarrow> int \<Rightarrow> int \<Rightarrow> string \<Rightarrow> int \<times> shell" where
  "addjob pg s p st cmd =
     (if p < 1 then (0, s)
      else case scan (\<lambda>j. pid j = 0) (job_list s) of
        Some i \<Rightarrow>
          (let j = (job_list s ! i)\<lparr>pid := p, state := st, jid := nextjid s, cmdline := cmd\<rparr>;
               n = nextjid s + 1
           in (1, s\<lparr>job_list := (job_list s)[i := j],
                     nextjid := (if n > MAXJOBS then 1 else n),
                     stdout := stdout s @
                       (if verbose s
                        then ''Added job ['' @ show_int (jid j) @ ''] '' @ show_int (pid j) @ '' ''
                             @ show_int (pg (pid j)) @ '' '' @ cmdline j @ newline
                        else [])\<rparr>))
      | None \<Rightarrow> (0, s\<lparr>stdout := stdout s @ ''Tried to create too many jobs'' @ newline\<rparr>))"

definition deletejob :: "shell \<Rightarrow> int \<Rightarrow> int \<times> shell" where
  "deletejob s p =
     (if p < 1 then (0, s)
      else case scan (\<lambda>j. pid j = p) (job_list s) of
        Some i \<Rightarrow>
          (let jl = (job_list s)[i := clearjob (job_list s ! i)]
           in (1, s\<lparr>job_list := jl, nextjid := maxjid jl + 1\<rparr>))
      | None \<Rightarrow> (0, s))"

definition fgpid :: "job_t list \<Rightarrow> int" where
  "fgpid jl = (case scan (\<lambda>j. state j = FG) jl of Some i \<Rightarrow> pid (jl ! i) | None \<Rightarrow> 0)"

text \<open>The two lookups return a pointer into the table, or \<open>NULL\<close>: here the index of the
  slot, or \<open>None\<close>.\<close>

definition getjobpid :: "job_t list \<Rightarrow> int \<Rightarrow> nat option" where
  "getjobpid jl p = (if p < 1 then None else scan (\<lambda>j. pid j = p) jl)"

definition getjobjid :: "job_t list \<Rightarrow> int \<Rightarrow> nat option" where
  "getjobjid jl i = (if i < 1 then None else scan (\<lambda>j. jid j = i) jl)"

definition pid2jid :: "job_t list \<Rightarrow> int \<Rightarrow> int" where
  "pid2jid jl p =
     (if p < 1 then 0
      else case scan (\<lambda>j. pid j = p) jl of Some i \<Rightarrow> jid (jl ! i) | None \<Rightarrow> 0)"

text \<open>The table at startup: \<open>main\<close> calls \<open>initjobs\<close> on the zero-initialised global
  array, and \<open>nextjid\<close> starts at 1.\<close>

definition empty_job :: job_t where
  "empty_job = \<lparr>pid = 0, jid = 0, state = 0, cmdline = ''''\<rparr>"

definition init_shell :: "bool \<Rightarrow> shell" where
  "init_shell v =
     \<lparr>job_list = initjobs (replicate (nat MAXJOBS) empty_job), nextjid = 1, verbose = v,
      stdout = '''', stderr = '''', kills = []\<rparr>"

subsection \<open>Listing the jobs\<close>

text \<open>\<open>listjobs\<close> writes three buffers for every slot whose pid is not 0: the ids, the
  state label and the command line. \<open>wr\<close> says for which buffers the system call
  \<open>write\<close> succeeds; when it fails the shell prints an error and calls \<open>exit(1)\<close>.
  The loop carries the slot index, which the label of an unknown state prints.\<close>

definition state_label :: "nat \<Rightarrow> job_t \<Rightarrow> string" where
  "state_label i j =
     (if state j = BG then ''Running    ''
      else if state j = FG then ''Foreground ''
      else if state j = ST then ''Stopped    ''
      else ''listjobs: Internal error: job['' @ show_int (int i) @ ''].state=''
           @ show_int (state j) @ '' '')"

fun listjobs_loop :: "(string \<Rightarrow> bool) \<Rightarrow> nat \<Rightarrow> job_t list \<Rightarrow> string \<Rightarrow> string option" where
  "listjobs_loop wr i [] out = Some out"
| "listjobs_loop wr i (j # js) out =
     (if pid j \<noteq> 0 then
        (let b1 = ''['' @ show_int (jid j) @ ''] ('' @ show_int (pid j) @ '') '';
             b2 = state_label i j;
             b3 = cmdline j @ newline
         in if \<not> wr b1 then None
            else if \<not> wr b2 then None
            else if \<not> wr b3 then None
            else listjobs_loop wr (Suc i) js (out @ b1 @ b2 @ b3))
      else listjobs_loop wr (Suc i) js out)"

text \<open>The result is how the call ends, the text that reached \<open>output_fd\<close> when every
  write succeeded, and the text printed to standard error.\<close>

definition listjobs :: "(string \<Rightarrow> bool) \<Rightarrow> job_t list \<Rightarrow> outcome \<times> string \<times> string" where
  "listjobs wr jl =
     (case listjobs_loop wr 0 jl [] of
        Some out \<Rightarrow> (Returns, out, [])
      | None \<Rightarrow> (Exits 1, [], ''Error writing to output file'' @ newline))"

subsection \<open>Error routines\<close>

text \<open>\<open>errtxt\<close> is the text \<open>strerror(errno)\<close> gives at the moment of the call.\<close>

definition unix_error :: "string \<Rightarrow> string \<Rightarrow> shell \<Rightarrow> outcome \<times> shell" where
  "unix_error errtxt msg s = (Exits 1, s\<lparr>stdout := stdout s @ msg @ '': '' @ errtxt @ newline\<rparr>)"

definition app_error :: "string \<Rightarrow> shell \<Rightarrow> outcome \<times> shell" where
  "app_error msg s = (Exits 1, s\<lparr>stdout := stdout s @ msg @ newline\<rparr>)"

subsection \<open>The signal handlers\<close>

text \<open>What \<open>waitpid\<close> reports about a child: the macros \<open>WIFEXITED\<close>, \<open>WIFSTOPPED\<close> (with
  \<open>WSTOPSIG\<close>) and \<open>WIFSIGNALED\<close> (with \<open>WTERMSIG\<close>); \<open>OtherStatus\<close> is a status none of the
  three tests of the handler accepts.\<close>

datatype child_status = Exited int | Stopped int | Signaled int | OtherStatus

text \<open>The body of the loop of \<open>sigchld_handler\<close>, for one pid \<open>w > 0\<close> returned by
  \<open>waitpid\<close> with status \<open>cs\<close>.\<close>

definition reap :: "shell \<Rightarrow> int \<Rightarrow> child_status \<Rightarrow> outcome \<times> shell" where
  "reap s w cs =
     (case getjobpid (job_list s) w of
        None \<Rightarrow> app_error ''sigchld getjobpid error'' s
      | Some i \<Rightarrow>
          (let job = job_list s ! i in
           case cs of
             Exited c \<Rightarrow>
               (Returns,
                snd (deletejob
                  (s\<lparr>stdout := stdout s @
                     (if verbose s
                      then ''['' @ show_int (jid job) @ ''] ('' @ show_int (pid job) @ '') ''
                           @ cmdline job @ '' deleted'' @ newline
                      else [])\<rparr>) w))
           | Stopped n \<Rightarrow>
               (Returns,
                s\<lparr>job_list := (job_list s)[i := job\<lparr>state := ST\<rparr>],
                  stdout := stdout s @ ''Job ['' @ show_int (jid job) @ ''] (''
                     @ show_int (pid job) @ '') stopped by signal '' @ show_int n @ newline\<rparr>)
           | Signaled n \<Rightarrow>
               (Returns,
                snd (deletejob
                  (s\<lparr>stdout := stdout s @ ''Job ['' @ show_int (jid job) @ ''] (''
                     @ show_int (pid job) @ '') terminated by signal '' @ show_int n @ newline\<rparr>) w))
           | OtherStatus \<Rightarrow> (Returns, s)))"

text \<open>The loop runs over the children \<open>waitpid\<close> reports (its positive return values, in
  order); \<open>wait_end\<close> is the return value that ends the loop: 0, or -1 with \<open>errno\<close> equal
  to \<open>ECHILD\<close>, or -1 with another \<open>errno\<close>.\<close>

datatype wait_end = NoneReady | NoChildren | WaitFailed

fun sigchld_loop :: "shell \<Rightarrow> (int \<times> child_status) list \<Rightarrow> outcome \<times> shell" where
  "sigchld_loop s [] = (Returns, s)"
| "sigchld_loop s ((w, cs) # rest) =
     (case reap s w cs of
        (Returns, s') \<Rightarrow> sigchld_loop s' rest
      | r \<Rightarrow> r)"

definition sigchld_handler ::
  "string \<Rightarrow> shell \<Rightarrow> (int \<times> child_status) list \<Rightarrow> wait_end \<Rightarrow> outcome \<times> shell" where
  "sigchld_handler errtxt s reported fin =
     (case sigchld_loop s reported of
        (Returns, s') \<Rightarrow>
          (if fin = WaitFailed then unix_error errtxt ''sigchld wait error'' s' else (Returns, s'))
      | r \<Rightarrow> r)"

text \<open>\<open>kill_rc\<close> is the return value of the call of \<open>kill\<close>.\<close>

definition sigint_handler :: "string \<Rightarrow> int \<Rightarrow> shell \<Rightarrow> outcome \<times> shell" where
  "sigint_handler errtxt kill_rc s =
     (let fid = fgpid (job_list s) in
      if fid = 0 then (Returns, s)
      else let s' = s\<lparr>kills := kills s @ [(- fid, SIGINT)]\<rparr> in
        if kill_rc = - 1 then unix_error errtxt ''error sigint.'' s' else (Returns, s'))"

definition sigtstp_handler :: "string \<Rightarrow> int \<Rightarrow> shell \<Rightarrow> outcome \<times> shell" where
  "sigtstp_handler errtxt kill_rc s =
     (let fid = fgpid (job_list s) in
      if fid = 0 then (Returns, s)
      else let s' = s\<lparr>kills := kills s @ [(- fid, SIGTSTP)]\<rparr> in
        if kill_rc = - 1 then unix_error errtxt ''error sigtstp.'' s' else (Returns, s'))"

subsection \<open>The builtins bg and fg of eval\<close>

text \<open>The tokens \<open>parseline\<close> hands to \<open>eval\<close>. The array \<open>argv\<close> with its \<open>argc\<close> entries
  is a list, \<open>argc\<close> its length; a null \<open>infile\<close> or \<open>outfile\<close> is \<open>None\<close>.\<close>

datatype builtins_t = BUILTIN_NONE | BUILTIN_QUIT | BUILTIN_JOBS | BUILTIN_BG | BUILTIN_FG

record cmdline_tokens =
  argv :: "string list"
  infile :: "string option"
  outfile :: "string option"
  builtins :: builtins_t

definition argc :: "cmdline_tokens \<Rightarrow> int" where
  "argc tok = int (length (argv tok))"

text \<open>\<open>atoi\<close> of the C library: white space, an optional sign, then decimal digits up to
  the first other character. (The result is not reduced to 32 bits: the C standard leaves
  the value of an overflowing \<open>atoi\<close> open.)\<close>

definition isspace :: "char \<Rightarrow> bool" where
  "isspace c = (c \<in> set [CHR '' '', CHR 0x09, CHR 0x0A, CHR 0x0B, CHR 0x0C, CHR 0x0D])"

definition isdigit :: "char \<Rightarrow> bool" where
  "isdigit c = (c \<in> set ''0123456789'')"

fun atoi_digits :: "int \<Rightarrow> string \<Rightarrow> int" where
  "atoi_digits acc [] = acc"
| "atoi_digits acc (c # cs) =
     (if isdigit c then atoi_digits (acc * 10 + (int (of_char c) - 48)) cs else acc)"

definition atoi :: "string \<Rightarrow> int" where
  "atoi a =
     (case dropWhile isspace a of
        [] \<Rightarrow> 0
      | c # cs \<Rightarrow>
          if c = CHR ''-'' then - atoi_digits 0 cs
          else if c = CHR ''+'' then atoi_digits 0 cs
          else atoi_digits 0 (c # cs))"

text \<open>The job the argument of \<open>bg\<close> or \<open>fg\<close> names: \<open>%jid\<close> or a pid.\<close>

definition find_target :: "job_t list \<Rightarrow> string \<Rightarrow> nat option" where
  "find_target jl a =
     (case a of
        c # cs \<Rightarrow> if c = CHR ''%'' then getjobjid jl (atoi cs) else getjobpid jl (atoi a)
      | [] \<Rightarrow> getjobpid jl (atoi a))"

text \<open>After the message "No Such Job" the source does not return: the next statement
  reads \<open>stjob->state\<close> through the null pointer.\<close>

definition eval_bg :: "cmdline_tokens \<Rightarrow> shell \<Rightarrow> outcome \<times> shell" where
  "eval_bg tok s =
     (if argc tok \<noteq> 2 then (Returns, s\<lparr>stderr := stderr s @ ''wrong input''\<rparr>)
      else case find_target (job_list s) (argv tok ! 1) of
        None \<Rightarrow> (NullDeref, s\<lparr>stderr := stderr s @ ''No Such Job'' @ newline\<rparr>)
      | Some i \<Rightarrow>
          (let stjob = job_list s ! i in
           if state stjob \<noteq> ST then
             (Returns, s\<lparr>stderr := stderr s @ ''['' @ show_int (jid stjob) @ ''] ''
                          @ show_int (pid stjob) @ '' is running now'' @ newline\<rparr>)
           else
             (Returns,
              s\<lparr>stdout := stdout s @ ''['' @ show_int (jid stjob) @ ''] (''
                   @ show_int (pid stjob) @ '') '' @ cmdline stjob,
                kills := kills s @ [(- pid stjob, SIGCONT)],
                job_list := (job_list s)[i := stjob\<lparr>state := BG\<rparr>]\<rparr>)))"

definition eval_fg :: "cmdline_tokens \<Rightarrow> shell \<Rightarrow> outcome \<times> shell" where
  "eval_fg tok s =
     (if argc tok \<noteq> 2 then (Returns, s\<lparr>stderr := stderr s @ ''wrong input''\<rparr>)
      else case find_target (job_list s) (argv tok ! 1) of
        None \<Rightarrow> (NullDeref, s\<lparr>stderr := stderr s @ ''No Such Job'' @ newline\<rparr>)
      | Some i \<Rightarrow>
          (let stjob = job_list s ! i in
           if state stjob \<noteq> ST then
             (Returns, s\<lparr>stderr := stderr s @ ''['' @ show_int (jid stjob) @ ''] ''
                          @ show_int (pid stjob) @ '' is running now'' @ newline\<rparr>)
           else
             (let s' = s\<lparr>kills := kills s @ [(- pid stjob, SIGCONT)],
                          job_list := (job_list s)[i := stjob\<lparr>state := FG\<rparr>]\<rparr>
              in (if fgpid (job_list s') \<noteq> 0 then Waits else Returns, s'))))"

subsection \<open>The forked child of eval\<close>

text \<open>The system calls of the child, as far as its control flow reads their results:
  for which paths \<open>open\<close> returns -1, for which target descriptors \<open>dup2\<close> fails, for which
  programs \<open>execve\<close> returns, and the text \<open>perror\<close> appends for the current \<open>errno\<close>.\<close>

record os_calls =
  open_fails :: "string \<Rightarrow> bool"
  dup2_fails :: "int \<Rightarrow> bool"
  execve_fails :: "string \<Rightarrow> bool"
  strerror :: string

text \<open>The child replaces its image by the program, or calls \<open>exit\<close>, or executes the
  statement \<open>return\<close> of \<open>eval\<close>: then it is back in the read loop of \<open>main\<close> as a second
  copy of the shell.\<close>

datatype child_outcome = Execs string "string list" | ChildExits int | ReturnsFromEval

definition perror :: "os_calls \<Rightarrow> string \<Rightarrow> string" where
  "perror os msg = msg @ '': '' @ strerror os @ newline"

definition child_exec :: "os_calls \<Rightarrow> cmdline_tokens \<Rightarrow> child_outcome \<times> string" where
  "child_exec os tok =
     (if execve_fails os (argv tok ! 0)
      then (ChildExits 1, argv tok ! 0 @ '': Command not found.'' @ newline)
      else (Execs (argv tok ! 0) (argv tok), []))"

definition child_outfile :: "os_calls \<Rightarrow> cmdline_tokens \<Rightarrow> child_outcome \<times> string" where
  "child_outfile os tok =
     (case outfile tok of
        Some f \<Rightarrow>
          if open_fails os f then (ReturnsFromEval, perror os ''Output Error'')
          else if dup2_fails os 1 then (ReturnsFromEval, perror os ''Dup Error'')
          else child_exec os tok
      | None \<Rightarrow> child_exec os tok)"

text \<open>The branch \<open>pid == 0\<close> of \<open>eval\<close>: how the child ends and what it printed to
  standard error. (\<open>eval\<close> has returned before the \<open>fork\<close> when \<open>argv[0]\<close> is null, so
  the list \<open>argv\<close> is not empty here. The calls that set the process group and the signal
  dispositions do not change the course of the child.)\<close>

definition eval_child :: "os_calls \<Rightarrow> cmdline_tokens \<Rightarrow> child_outcome \<times> string" where
  "eval_child os tok =
     (case infile tok of
        Some f \<Rightarrow>
          if open_fails os f then (ReturnsFromEval, perror os ''Input Error'')
          else if dup2_fails os 0 then (ReturnsFromEval, perror os ''Dup Error'')
          else child_outfile os tok
      | None \<Rightarrow> child_outfile os tok)"

subsection \<open>Sequences of table operations\<close>

datatype table_op = Add int int string | Del int

fun step :: "(int \<Rightarrow> int) \<Rightarrow> shell \<Rightarrow> table_op \<Rightarrow> shell" where
  "step pg s (Add p st cmd) = snd (addjob pg s p st cmd)"
| "step pg s (Del p) = snd (deletejob s p)"

definition run :: "(int \<Rightarrow> int) \<Rightarrow> shell \<Rightarrow> table_op list \<Rightarrow> shell" where
  "run pg s ops = foldl (step pg) s ops"

text \<open>The live entries are the slots whose pid is not 0, in slot order.\<close>

definition live :: "job_t list \<Rightarrow> job_t list" where
  "live jl = filter (\<lambda>j. pid j \<noteq> 0) jl"

definition fg_count :: "job_t list \<Rightarrow> nat" where
  "fg_count jl = length (filter (\<lambda>j. state j = FG) (live jl))"

definition uniqueness :: "job_t list \<Rightarrow> bool" where
  "uniqueness jl \<longleftrightarrow>
     fg_count jl \<le> 1 \<and> distinct (map jid (live jl)) \<and> distinct (map pid (live jl))"

text \<open>The largest job id of a live entry, 0 when no entry is live.\<close>

definition max_live_jid :: "job_t list \<Rightarrow> int" where
  "max_live_jid jl = Max (set (0 # map jid (live jl)))"

text \<open>Every empty slot is in the state \<open>clearjob\<close> leaves it in, as far as the job id goes.\<close>

definition slots_clean :: "job_t list \<Rightarrow> bool" where
  "slots_clean jl \<longleftrightarrow> list_all (\<lambda>j. pid j \<noteq> 0 \<or> jid j = 0) jl"

subsection \<open>Example tables\<close>

text \<open>Every job is put in a process group of its own (\<open>setpgid(0, 0)\<close> in the child), so
  \<open>getpgid\<close> of a job's pid is that pid.\<close>

definition own_pgid :: "int \<Rightarrow> int" where
  "own_pgid p = p"

text \<open>Sixteen background jobs with the pids 1 to 16: no slot is empty.\<close>

definition sixteen_adds :: "table_op list" where
  "sixteen_adds = map (\<lambda>n. Add (int n) BG ''sleep 100 &'') [1..<17]"

definition fifteen_adds :: "table_op list" where
  "fifteen_adds = map (\<lambda>n. Add (int n) BG ''sleep 100 &'') [1..<16]"

definition full_table :: shell where
  "full_table = run own_pgid (init_shell False) sixteen_adds"

text \<open>One foreground job and two background jobs in the slots 0, 1 and 2.\<close>

definition three_jobs :: shell where
  "three_jobs =
     run own_pgid (init_shell False)
       [Add 100 FG ''sleep 5'', Add 200 BG ''ls &'', Add 300 BG ''vi &'']"

subsection \<open>The listing as the specification words it, and as the code prints it\<close>

text \<open>A sink on which every \<open>write\<close> succeeds.\<close>

definition write_ok :: "string \<Rightarrow> bool" where
  "write_ok b = True"

definition label_of :: "int \<Rightarrow> string" where
  "label_of st =
     (if st = BG then ''Running'' else if st = FG then ''Foreground''
      else if st = ST then ''Stopped'' else [])"

text \<open>The line of the specification: four blanks between the label and the command.\<close>

definition claimed_line :: "job_t \<Rightarrow> string" where
  "claimed_line j =
     ''['' @ show_int (jid j) @ ''] ('' @ show_int (pid j) @ '') '' @ label_of (state j)
     @ ''    '' @ cmdline j @ newline"

text \<open>The label left-justified in a field of 11 characters.\<close>

definition padded_label :: "int \<Rightarrow> string" where
  "padded_label st = label_of st @ replicate (11 - length (label_of st)) (CHR '' '')"

definition job_line :: "job_t \<Rightarrow> string" where
  "job_line j =
     ''['' @ show_int (jid j) @ ''] ('' @ show_int (pid j) @ '') '' @ padded_label (state j)
     @ cmdline j @ newline"

subsection \<open>An example of failing system calls\<close>

text \<open>\<open>open\<close> fails on one path and \<open>execve\<close> on one program, with the error text of
  \<open>ENOENT\<close>.\<close>

definition missing_file :: os_calls where
  "missing_file =
     \<lparr>open_fails = (\<lambda>f. f = ''/no/such/file''), dup2_fails = (\<lambda>fd. False),
      execve_fails = (\<lambda>prog. prog = ''/no/such/prog''),
      strerror = ''No such file or directory''\<rparr>"

subsection \<open>Runs that keep the discipline of the callers\<close>

text \<open>\<open>addjob\<close> itself checks neither the pid nor the state it is given. Its one caller,
  \<open>eval\<close>, passes the pid \<open>fork\<close> just returned, which no live child has, and starts a
  foreground job only when it is not waiting for another one. \<open>callers_ok\<close> says that
  every add of a run keeps to this.\<close>

fun callers_ok :: "(int \<Rightarrow> int) \<Rightarrow> shell \<Rightarrow> table_op list \<Rightarrow> bool" where
  "callers_ok pg s [] = True"
| "callers_ok pg s (Add p st cmd # ops) =
     (p \<notin> set (map pid (live (job_list s)))
      \<and> (st = FG \<longrightarrow> fg_count (job_list s) = 0)
      \<and> callers_ok pg (step pg s (Add p st cmd)) ops)"
| "callers_ok pg s (Del p # ops) = callers_ok pg (step pg s (Del p)) ops"

text \<open>An add wraps the counter when it succeeds and sets \<open>nextjid\<close> back to 1.\<close>

definition wraps :: "(int \<Rightarrow> int) \<Rightarrow> shell \<Rightarrow> table_op \<Rightarrow> bool" where
  "wraps pg s x =
     (case x of
        Add p st cmd \<Rightarrow> fst (addjob pg s p st cmd) = 1 \<and> nextjid s + 1 > MAXJOBS
      | Del p \<Rightarrow> False)"

fun no_wrap :: "(int \<Rightarrow> int) \<Rightarrow> shell \<Rightarrow> table_op list \<Rightarrow> bool" where
  "no_wrap pg s [] = True"
| "no_wrap pg s (x # ops) = (\<not> wraps pg s x \<and> no_wrap pg (step pg s x) ops)"

text \<open>The invariants of the runs.\<close>

definition pf_inv :: "shell \<Rightarrow> bool" where
  "pf_inv s \<longleftrightarrow> fg_count (job_list s) \<le> 1 \<and> distinct (map pid (live (job_list s)))"

definition jid_inv :: "shell \<Rightarrow> bool" where
  "jid_inv s \<longleftrightarrow>
     distinct (map jid (live (job_list s))) \<and> (\<forall>j\<in>set (job_list s). jid j < nextjid s)"

definition counter_inv :: "shell \<Rightarrow> bool" where
  "counter_inv s \<longleftrightarrow> 1 \<le> nextjid s \<and> slots_clean (job_list s)"

subsection \<open>Example runs\<close>

text \<open>Fifteen adds, one removal and two adds: the second one is given the job id 1
  again.\<close>

definition reuse_ops :: "table_op list" where
  "reuse_ops = fifteen_adds @ [Del 3, Add 16 BG ''ls &'', Add 17 BG ''vi &'']"

definition some_ops :: "table_op list" where
  "some_ops = [Add 100 FG ''sleep 5'', Add 200 BG ''ls &'', Del 100, Add 300 FG ''vi'']"

subsection \<open>Facts about scanning\<close>

lemma scan_Some_iff:
  "scan P js = Some i \<longleftrightarrow> i < length js \<and> P (js ! i) \<and> (\<forall>k<i. \<not> P (js ! k))"
proof (induction js arbitrary: i)
  case Nil
  show ?case by simp
next
  case (Cons j js)
  show ?case
  proof (cases "P j")
    case True
    then show ?thesis by (cases i) auto
  next
    case False
    show ?thesis
    proof (cases i)
      case 0
      with False show ?thesis by auto
    next
      case (Suc n)
      have "(\<forall>k<Suc n. \<not> P ((j # js) ! k)) \<longleftrightarrow> (\<forall>k<n. \<not> P (js ! k))"
        using False by (auto simp: less_Suc_eq_0_disj)
      with False Suc Cons.IH [of n] show ?thesis by auto
    qed
  qed
qed

lemma scan_None_iff: "scan P js = None \<longleftrightarrow> (\<forall>j\<in>set js. \<not> P j)"
  by (induction js) auto

lemma maxjid_from_ge: "m \<le> maxjid_from m js"
proof (induction js arbitrary: m)
  case Nil
  show ?case by simp
next
  case (Cons j js)
  show ?case using Cons [of "jid j"] Cons [of m] by auto
qed

lemma maxjid_from_upper: "j \<in> set js \<Longrightarrow> jid j \<le> maxjid_from m js"
proof (induction js arbitrary: m)
  case Nil
  then show ?case by simp
next
  case (Cons a js)
  show ?case
  proof (cases "j = a")
    case True
    then show ?thesis
      using maxjid_from_ge [of "jid a" js] maxjid_from_ge [of m js] by auto
  next
    case False
    with Cons show ?thesis by auto
  qed
qed

lemma maxjid_from_mem: "maxjid_from m js \<in> insert m (jid ` set js)"
proof (induction js arbitrary: m)
  case Nil
  show ?case by simp
next
  case (Cons j js)
  show ?case using Cons [of "jid j"] Cons [of m] by auto
qed

lemma maxjid_from_eq: "maxjid_from m js = Max (set (m # map jid js))"
proof -
  have "Max (insert m (jid ` set js)) = maxjid_from m js"
  proof (rule Max_eqI)
    show "finite (insert m (jid ` set js))" by simp
    show "y \<le> maxjid_from m js" if "y \<in> insert m (jid ` set js)" for y
      using that maxjid_from_ge [of m js] maxjid_from_upper [of _ js m] by auto
    show "maxjid_from m js \<in> insert m (jid ` set js)" by (rule maxjid_from_mem)
  qed
  then show ?thesis by simp
qed

subsection \<open>Facts about the records and the largest job id\<close>

lemma clearjob_empty: "clearjob (j :: job_t) = empty_job"
  by (cases j) (simp add: clearjob_def empty_job_def UNDEF_def)

lemma job_fields:
  "(j :: job_t)\<lparr>pid := p, state := st, jid := n, cmdline := c\<rparr>
     = \<lparr>pid = p, jid = n, state = st, cmdline = c\<rparr>"
  by (cases j) simp

lemma maxjid_clean:
  assumes "slots_clean jl"
  shows "maxjid jl = max_live_jid jl"
proof -
  have "insert 0 (jid ` set jl) = insert 0 (jid ` {j \<in> set jl. pid j \<noteq> 0})"
    using assms by (auto simp: slots_clean_def list_all_iff)
  then show ?thesis
    by (simp add: maxjid_def max_live_jid_def live_def maxjid_from_eq)
qed

lemma slots_clean_update:
  "slots_clean jl \<Longrightarrow> pid v \<noteq> 0 \<or> jid v = 0 \<Longrightarrow> slots_clean (jl[i := v])"
  by (auto simp: slots_clean_def list_all_iff dest!: set_update_subset_insert [THEN subsetD])

section \<open>addjob\<close>

text \<open>
  Claim C5. For a pid of at least 1: when \<open>i\<close> is the lowest index of a slot with pid 0,
  \<open>addjob\<close> returns 1, fills slot \<open>i\<close> with the pid, the state, the command line and the
  current \<open>nextjid\<close> as job id, and advances the counter (to 1 when it would pass
  \<open>MAXJOBS\<close>); when no slot has pid 0 it returns 0, prints "Tried to create too many
  jobs" and changes neither a slot nor the counter. For a pid below 1 it returns 0 and
  changes nothing at all.
\<close>

theorem addjob_spec:
  "(1 \<le> p \<and> i < length (job_list s) \<and> pid (job_list s ! i) = 0
      \<and> (\<forall>k<i. pid (job_list s ! k) \<noteq> 0) \<longrightarrow>
      addjob pg s p st cmd =
        (1, s\<lparr>job_list :=
                (job_list s)[i := \<lparr>pid = p, jid = nextjid s, state = st, cmdline = cmd\<rparr>],
              nextjid := (if nextjid s + 1 > MAXJOBS then 1 else nextjid s + 1),
              stdout := stdout s @
                (if verbose s
                 then ''Added job ['' @ show_int (nextjid s) @ ''] '' @ show_int p @ '' ''
                      @ show_int (pg p) @ '' '' @ cmd @ newline
                 else [])\<rparr>))
   \<and> (1 \<le> p \<and> (\<forall>j\<in>set (job_list s). pid j \<noteq> 0) \<longrightarrow>
      addjob pg s p st cmd =
        (0, s\<lparr>stdout := stdout s @ ''Tried to create too many jobs'' @ newline\<rparr>))
   \<and> (p < 1 \<longrightarrow> addjob pg s p st cmd = (0, s))"
proof (intro conjI impI)
  assume h: "1 \<le> p \<and> i < length (job_list s) \<and> pid (job_list s ! i) = 0
      \<and> (\<forall>k<i. pid (job_list s ! k) \<noteq> 0)"
  then have "scan (\<lambda>j. pid j = 0) (job_list s) = Some i"
    by (simp add: scan_Some_iff)
  with h show "addjob pg s p st cmd =
        (1, s\<lparr>job_list :=
                (job_list s)[i := \<lparr>pid = p, jid = nextjid s, state = st, cmdline = cmd\<rparr>],
              nextjid := (if nextjid s + 1 > MAXJOBS then 1 else nextjid s + 1),
              stdout := stdout s @
                (if verbose s
                 then ''Added job ['' @ show_int (nextjid s) @ ''] '' @ show_int p @ '' ''
                      @ show_int (pg p) @ '' '' @ cmd @ newline
                 else [])\<rparr>)"
    by (simp add: addjob_def Let_def job_fields)
next
  assume h: "1 \<le> p \<and> (\<forall>j\<in>set (job_list s). pid j \<noteq> 0)"
  then have "scan (\<lambda>j. pid j = 0) (job_list s) = None"
    by (simp add: scan_None_iff)
  with h show "addjob pg s p st cmd =
        (0, s\<lparr>stdout := stdout s @ ''Tried to create too many jobs'' @ newline\<rparr>)"
    by (simp add: addjob_def)
next
  assume "p < 1"
  then show "addjob pg s p st cmd = (0, s)" by (simp add: addjob_def)
qed

text \<open>The three cases at the empty table, at the full table and at the pid 0.\<close>

theorem addjob_spec_witness:
  "addjob own_pgid (init_shell False) 100 BG ''ls &'' =
     (1, (init_shell False)
           \<lparr>job_list := (job_list (init_shell False))
              [0 := \<lparr>pid = 100, jid = 1, state = BG, cmdline = ''ls &''\<rparr>],
            nextjid := 2\<rparr>)
   \<and> addjob own_pgid full_table 100 BG ''ls &'' =
       (0, full_table\<lparr>stdout := stdout full_table @ ''Tried to create too many jobs'' @ newline\<rparr>)
   \<and> addjob own_pgid (init_shell False) 0 BG ''ls &'' = (0, init_shell False)"
proof -
  have a: "(1::int) \<le> 100 \<and> 0 < length (job_list (init_shell False))
      \<and> pid (job_list (init_shell False) ! 0) = 0
      \<and> (\<forall>k<0::nat. pid (job_list (init_shell False) ! k) \<noteq> 0)"
    by (simp add: init_shell_def initjobs_def MAXJOBS_def clearjob_def empty_job_def)
  have b: "(1::int) \<le> 100 \<and> (\<forall>j\<in>set (job_list full_table). pid j \<noteq> 0)"
    by code_simp
  have c: "(0::int) < 1" by simp
  have n: "nextjid (init_shell False) = 1" "verbose (init_shell False) = False"
    by (simp_all add: init_shell_def)
  from addjob_spec [of 100 0 "init_shell False" own_pgid BG "''ls &''"] a
    addjob_spec [of 100 0 full_table own_pgid BG "''ls &''"] b
    addjob_spec [of 0 0 "init_shell False" own_pgid BG "''ls &''"] c
  show ?thesis by (simp add: n MAXJOBS_def)
qed

section \<open>deletejob\<close>

text \<open>
  Claim C6. For a pid of at least 1 held by a slot, \<open>i\<close> being the lowest such slot, and a
  table whose empty slots carry the job id 0: \<open>deletejob\<close> returns 1, clears slot \<open>i\<close> and
  no other, and sets \<open>nextjid\<close> to the largest job id of the entries still live plus 1.
\<close>

theorem deletejob_found:
  assumes "1 \<le> p" and "i < length (job_list s)" and "pid (job_list s ! i) = p"
    and "\<forall>k<i. pid (job_list s ! k) \<noteq> p" and "slots_clean (job_list s)"
  shows "deletejob s p =
           (1, s\<lparr>job_list := (job_list s)[i := empty_job],
                 nextjid := max_live_jid ((job_list s)[i := empty_job]) + 1\<rparr>)"
proof -
  have "scan (\<lambda>j. pid j = p) (job_list s) = Some i"
    using assms by (simp add: scan_Some_iff)
  moreover have "slots_clean ((job_list s)[i := empty_job])"
    using assms(5) by (rule slots_clean_update) (simp add: empty_job_def)
  ultimately show ?thesis
    using assms(1) by (simp add: deletejob_def Let_def clearjob_empty maxjid_clean)
qed

text \<open>Deleting the pid 200 of slot 1 from the table of three jobs with the ids 1, 2, 3.\<close>

theorem deletejob_found_witness:
  "deletejob three_jobs 200 =
     (1, three_jobs\<lparr>job_list := (job_list three_jobs)[1 := empty_job], nextjid := 4\<rparr>)
   \<and> map jid (job_list (snd (deletejob three_jobs 200)))
       = [1, 0, 3, 0, 0, 0, 0, 0, 0, 0, 0, 0, 0, 0, 0, 0]"
proof -
  have h1: "(1::int) \<le> 200" by simp
  have h2: "1 < length (job_list three_jobs)" by code_simp
  have h3: "pid (job_list three_jobs ! 1) = 200" by code_simp
  have "pid (job_list three_jobs ! 0) \<noteq> 200" by code_simp
  then have h4: "\<forall>k<1::nat. pid (job_list three_jobs ! k) \<noteq> 200" by simp
  have h5: "slots_clean (job_list three_jobs)" by code_simp
  have m: "max_live_jid ((job_list three_jobs)[1 := empty_job]) = 3" by code_simp
  have l: "map jid ((job_list three_jobs)[1 := empty_job])
       = [1, 0, 3, 0, 0, 0, 0, 0, 0, 0, 0, 0, 0, 0, 0, 0]" by code_simp
  from deletejob_found [OF h1 h2 h3 h4 h5] m l show ?thesis by simp
qed

text \<open>
  Claim C10. For a pid that no slot holds, and for every pid below 1, \<open>deletejob\<close> returns
  0 and the whole shell state, every slot and \<open>nextjid\<close> included, is as before.
\<close>

theorem deletejob_not_found:
  "p < 1 \<or> (\<forall>j\<in>set (job_list s). pid j \<noteq> p) \<Longrightarrow> deletejob s p = (0, s)"
proof -
  assume h: "p < 1 \<or> (\<forall>j\<in>set (job_list s). pid j \<noteq> p)"
  show ?thesis
  proof (cases "p < 1")
    case True
    then show ?thesis by (simp add: deletejob_def)
  next
    case False
    with h have "scan (\<lambda>j. pid j = p) (job_list s) = None"
      by (simp add: scan_None_iff)
    with False show ?thesis by (simp add: deletejob_def)
  qed
qed

text \<open>The pid 999 is in no slot of the table of three jobs; the pid 0 is below 1 (and is
  the pid of every empty slot).\<close>

theorem deletejob_not_found_witness:
  "deletejob three_jobs 999 = (0, three_jobs) \<and> deletejob three_jobs 0 = (0, three_jobs)"
proof -
  have a: "\<forall>j\<in>set (job_list three_jobs). pid j \<noteq> 999" by code_simp
  have b: "(0::int) < 1" by simp
  from deletejob_not_found [of 999 three_jobs] deletejob_not_found [of 0 three_jobs] a b
  show ?thesis by simp
qed

section \<open>listjobs\<close>

lemma state_label_padded:
  "st \<in> {FG, BG, ST} \<Longrightarrow> state j = st \<Longrightarrow> state_label i j = padded_label st"
  by (auto simp: state_label_def padded_label_def label_of_def FG_def BG_def ST_def eval_nat_numeral)

lemma listjobs_loop_lines:
  "\<forall>j\<in>set js. pid j \<noteq> 0 \<longrightarrow> state j \<in> {FG, BG, ST} \<Longrightarrow>
     listjobs_loop write_ok i js out = Some (out @ concat (map job_line (live js)))"
proof (induction js arbitrary: i out)
  case Nil
  show ?case by (simp add: live_def)
next
  case (Cons j js)
  have rest: "\<forall>j\<in>set js. pid j \<noteq> 0 \<longrightarrow> state j \<in> {FG, BG, ST}"
    using Cons.prems by simp
  show ?case
  proof (cases "pid j = 0")
    case True
    then show ?thesis using Cons.IH [OF rest] by (simp add: live_def)
  next
    case False
    with Cons.prems have "state j \<in> {FG, BG, ST}" by simp
    then have "state_label i j = padded_label (state j)"
      by (rule state_label_padded) simp
    with False show ?thesis
      using Cons.IH [OF rest] by (simp add: live_def Let_def write_ok_def job_line_def)
  qed
qed

text \<open>
  Claim C9, as the code has it. On a table whose live entries are in one of the states
  \<open>FG\<close>, \<open>BG\<close>, \<open>ST\<close>, and a sink that accepts every write, \<open>listjobs\<close> returns after
  writing one line for every slot with a pid other than 0, in slot order, and nothing for
  the other slots. A line is \<open>[jid] (pid)\<close>, a blank, the label "Running" (for \<open>BG\<close>),
  "Foreground" (for \<open>FG\<close>) or "Stopped" (for \<open>ST\<close>) filled with blanks to 11 characters,
  the command line and a newline: so four blanks follow "Running" and "Stopped", and one
  blank follows "Foreground".
\<close>

theorem listjobs_spec:
  "\<forall>j\<in>set jl. pid j \<noteq> 0 \<longrightarrow> state j \<in> {FG, BG, ST} \<Longrightarrow>
     listjobs write_ok jl = (Returns, concat (map job_line (live jl)), [])"
  using listjobs_loop_lines [of jl 0 "[]"] by (simp add: listjobs_def)

text \<open>The listing of the table of three jobs.\<close>

theorem listjobs_spec_witness:
  "listjobs write_ok (job_list three_jobs) =
     (Returns,
      ''[1] (100) Foreground sleep 5'' @ newline @
      ''[2] (200) Running    ls &'' @ newline @
      ''[3] (300) Running    vi &'' @ newline, [])"
proof -
  have h: "\<forall>j\<in>set (job_list three_jobs). pid j \<noteq> 0 \<longrightarrow> state j \<in> {FG, BG, ST}"
    by code_simp
  have l: "concat (map job_line (live (job_list three_jobs))) =
      ''[1] (100) Foreground sleep 5'' @ newline @
      ''[2] (200) Running    ls &'' @ newline @
      ''[3] (300) Running    vi &'' @ newline"
    by code_simp
  from listjobs_spec [OF h] l show ?thesis by simp
qed

text \<open>
  Claim C9 as the specification states it, with four blanks after every label, fails on
  the foreground job of the table of three jobs: the code prints
  \<open>[1] (100) Foreground sleep 5\<close>.
\<close>

theorem listjobs_foreground_counterexample:
  "fst (snd (listjobs write_ok (job_list three_jobs)))
     \<noteq> concat (map claimed_line (live (job_list three_jobs)))"
  by code_simp

section \<open>The signal forwarders\<close>

text \<open>
  Claim C7. \<open>sigint_handler\<close> and \<open>sigtstp_handler\<close> return without any effect when
  \<open>fgpid\<close> is 0; otherwise each calls \<open>kill\<close> once, with the negated foreground pid and
  its own signal. Whatever \<open>kill\<close> returns, the job table and \<open>nextjid\<close> are as before.
\<close>

theorem forwarders_spec:
  "(fgpid (job_list s) = 0 \<longrightarrow>
      sigint_handler e rc s = (Returns, s) \<and> sigtstp_handler e rc s = (Returns, s))
   \<and> (fgpid (job_list s) \<noteq> 0 \<longrightarrow>
      kills (snd (sigint_handler e rc s)) = kills s @ [(- fgpid (job_list s), SIGINT)]
      \<and> kills (snd (sigtstp_handler e rc s)) = kills s @ [(- fgpid (job_list s), SIGTSTP)])
   \<and> job_list (snd (sigint_handler e rc s)) = job_list s
   \<and> job_list (snd (sigtstp_handler e rc s)) = job_list s
   \<and> nextjid (snd (sigint_handler e rc s)) = nextjid s
   \<and> nextjid (snd (sigtstp_handler e rc s)) = nextjid s"
  by (simp add: sigint_handler_def sigtstp_handler_def unix_error_def Let_def)

text \<open>At the empty table nothing happens; with the foreground job 100 the signals go
  to the process group -100.\<close>

theorem forwarders_spec_witness:
  "sigint_handler ''No such process'' 0 (init_shell False) = (Returns, init_shell False)
   \<and> sigtstp_handler ''No such process'' 0 (init_shell False) = (Returns, init_shell False)
   \<and> kills (snd (sigint_handler ''No such process'' 0 three_jobs)) = [(- 100, SIGINT)]
   \<and> kills (snd (sigtstp_handler ''No such process'' 0 three_jobs)) = [(- 100, SIGTSTP)]
   \<and> job_list (snd (sigint_handler ''No such process'' 0 three_jobs)) = job_list three_jobs
   \<and> job_list (snd (sigtstp_handler ''No such process'' 0 three_jobs)) = job_list three_jobs"
proof -
  have a: "fgpid (job_list (init_shell False)) = 0" by code_simp
  have b: "fgpid (job_list three_jobs) = 100" by code_simp
  have c: "kills three_jobs = []" by code_simp
  from forwarders_spec [of "init_shell False" "''No such process''" 0]
    forwarders_spec [of three_jobs "''No such process''" 0] a b c
  show ?thesis by simp
qed

section \<open>The reaper\<close>

lemma getjobpid_Some:
  "getjobpid jl w = Some i \<Longrightarrow> 1 \<le> w \<and> scan (\<lambda>j. pid j = w) jl = Some i \<and> pid (jl ! i) = w"
  by (auto simp: getjobpid_def scan_Some_iff split: if_splits)

text \<open>
  Claim C3. One pass of the loop of \<open>sigchld_handler\<close> for a reaped pid \<open>w\<close>. When
  \<open>getjobpid\<close> finds \<open>w\<close> in slot \<open>i\<close>: after a normal exit the slot is cleared (and the
  removal is reported only in verbose mode); after a stop the state of the slot becomes
  \<open>ST\<close> and "Job [jid] (pid) stopped by signal N" is printed whether verbose is set or
  not; after a death by signal "Job [jid] (pid) terminated by signal N" is printed and the
  slot is cleared. When \<open>getjobpid\<close> finds no slot, "sigchld getjobpid error" is printed
  and the shell calls \<open>exit(1)\<close>.
\<close>

theorem reap_spec:
  "(getjobpid (job_list s) w = Some i \<longrightarrow>
      reap s w (Exited c) =
        (Returns,
         s\<lparr>job_list := (job_list s)[i := empty_job],
           nextjid := maxjid ((job_list s)[i := empty_job]) + 1,
           stdout := stdout s @
             (if verbose s
              then ''['' @ show_int (jid (job_list s ! i)) @ ''] ('' @ show_int w @ '') ''
                   @ cmdline (job_list s ! i) @ '' deleted'' @ newline
              else [])\<rparr>)
      \<and> reap s w (Stopped n) =
        (Returns,
         s\<lparr>job_list := (job_list s)[i := (job_list s ! i)\<lparr>state := ST\<rparr>],
           stdout := stdout s @ ''Job ['' @ show_int (jid (job_list s ! i)) @ ''] (''
              @ show_int w @ '') stopped by signal '' @ show_int n @ newline\<rparr>)
      \<and> reap s w (Signaled n) =
        (Returns,
         s\<lparr>job_list := (job_list s)[i := empty_job],
           nextjid := maxjid ((job_list s)[i := empty_job]) + 1,
           stdout := stdout s @ ''Job ['' @ show_int (jid (job_list s ! i)) @ ''] (''
              @ show_int w @ '') terminated by signal '' @ show_int n @ newline\<rparr>))
   \<and> (getjobpid (job_list s) w = None \<longrightarrow>
      reap s w cs = (Exits 1, s\<lparr>stdout := stdout s @ ''sigchld getjobpid error'' @ newline\<rparr>))"
proof (intro conjI impI)
  assume "getjobpid (job_list s) w = None"
  then show "reap s w cs = (Exits 1, s\<lparr>stdout := stdout s @ ''sigchld getjobpid error'' @ newline\<rparr>)"
    by (simp add: reap_def app_error_def)
next
  assume h: "getjobpid (job_list s) w = Some i"
  note f = getjobpid_Some [OF h]
  from h f show "reap s w (Exited c) =
        (Returns,
         s\<lparr>job_list := (job_list s)[i := empty_job],
           nextjid := maxjid ((job_list s)[i := empty_job]) + 1,
           stdout := stdout s @
             (if verbose s
              then ''['' @ show_int (jid (job_list s ! i)) @ ''] ('' @ show_int w @ '') ''
                   @ cmdline (job_list s ! i) @ '' deleted'' @ newline
              else [])\<rparr>)"
    by (simp add: reap_def deletejob_def Let_def clearjob_empty)
  from h f show "reap s w (Stopped n) =
        (Returns,
         s\<lparr>job_list := (job_list s)[i := (job_list s ! i)\<lparr>state := ST\<rparr>],
           stdout := stdout s @ ''Job ['' @ show_int (jid (job_list s ! i)) @ ''] (''
              @ show_int w @ '') stopped by signal '' @ show_int n @ newline\<rparr>)"
    by (simp add: reap_def Let_def)
  from h f show "reap s w (Signaled n) =
        (Returns,
         s\<lparr>job_list := (job_list s)[i := empty_job],
           nextjid := maxjid ((job_list s)[i := empty_job]) + 1,
           stdout := stdout s @ ''Job ['' @ show_int (jid (job_list s ! i)) @ ''] (''
              @ show_int w @ '') terminated by signal '' @ show_int n @ newline\<rparr>)"
    by (simp add: reap_def deletejob_def Let_def clearjob_empty)
qed

text \<open>The job 100 stops, the job 200 exits or is killed, and the pid 555 is unknown.\<close>

theorem reap_spec_witness:
  "reap three_jobs 100 (Stopped 20) =
     (Returns,
      three_jobs\<lparr>job_list := (job_list three_jobs)[0 := (job_list three_jobs ! 0)\<lparr>state := ST\<rparr>],
                 stdout := ''Job [1] (100) stopped by signal 20'' @ newline\<rparr>)
   \<and> reap three_jobs 200 (Exited 0) =
     (Returns,
      three_jobs\<lparr>job_list := (job_list three_jobs)[1 := empty_job], nextjid := 4,
                 stdout := []\<rparr>)
   \<and> reap three_jobs 200 (Signaled 2) =
     (Returns,
      three_jobs\<lparr>job_list := (job_list three_jobs)[1 := empty_job], nextjid := 4,
                 stdout := ''Job [2] (200) terminated by signal 2'' @ newline\<rparr>)
   \<and> reap three_jobs 555 (Exited 0) =
     (Exits 1, three_jobs\<lparr>stdout := ''sigchld getjobpid error'' @ newline\<rparr>)"
proof -
  have g: "getjobpid (job_list three_jobs) 100 = Some 0"
    "getjobpid (job_list three_jobs) 200 = Some 1"
    "getjobpid (job_list three_jobs) 555 = None"
    by code_simp+
  have f: "jid (job_list three_jobs ! 0) = 1" "jid (job_list three_jobs ! Suc 0) = 2"
    "verbose three_jobs = False" "stdout three_jobs = []"
    "maxjid ((job_list three_jobs)[Suc 0 := empty_job]) = 3"
    by code_simp+
  have d: "show_int 1 = ''1''" "show_int 2 = ''2''" "show_int 20 = ''20''"
    "show_int 100 = ''100''" "show_int 200 = ''200''"
    by code_simp+
  from reap_spec [of three_jobs 100 0 0 20 "Exited 0"]
    reap_spec [of three_jobs 200 1 0 2 "Exited 0"]
    reap_spec [of three_jobs 555 0 0 0 "Exited 0"] g
  show ?thesis by (simp add: f d)
qed

section \<open>The builtins bg and fg on a job that does not exist\<close>

lemma eval_bg_no_target:
  "argc tok = 2 \<Longrightarrow> find_target (job_list s) (argv tok ! 1) = None \<Longrightarrow>
     eval_bg tok s = (NullDeref, s\<lparr>stderr := stderr s @ ''No Such Job'' @ newline\<rparr>)"
  by (simp add: eval_bg_def)

lemma eval_fg_no_target:
  "argc tok = 2 \<Longrightarrow> find_target (job_list s) (argv tok ! 1) = None \<Longrightarrow>
     eval_fg tok s = (NullDeref, s\<lparr>stderr := stderr s @ ''No Such Job'' @ newline\<rparr>)"
  by (simp add: eval_fg_def)

text \<open>
  Claim C2 says that \<open>bg\<close> and \<open>fg\<close> report "no such job" and give up the command. The
  code prints "No Such Job" and goes on to read \<open>stjob->state\<close> with \<open>stjob\<close> null: at
  \<open>bg %5\<close> and \<open>fg 999\<close> on the table of three jobs the call ends in the null
  dereference, with no slot changed and no signal sent before it.
\<close>

theorem no_such_job_null_deref:
  "eval_bg \<lparr>argv = [''bg'', ''%5''], infile = None, outfile = None, builtins = BUILTIN_BG\<rparr>
       three_jobs
     = (NullDeref, three_jobs\<lparr>stderr := ''No Such Job'' @ newline\<rparr>)
   \<and> eval_fg \<lparr>argv = [''fg'', ''999''], infile = None, outfile = None, builtins = BUILTIN_FG\<rparr>
       three_jobs
     = (NullDeref, three_jobs\<lparr>stderr := ''No Such Job'' @ newline\<rparr>)"
  by code_simp

section \<open>The child whose redirection fails\<close>

lemma eval_child_input_failure:
  "infile tok = Some f \<Longrightarrow> open_fails os f \<Longrightarrow>
     eval_child os tok = (ReturnsFromEval, ''Input Error: '' @ strerror os @ newline)"
  by (simp add: eval_child_def perror_def)

lemma eval_child_output_failure:
  "infile tok = None \<Longrightarrow> outfile tok = Some f \<Longrightarrow> open_fails os f \<Longrightarrow>
     eval_child os tok = (ReturnsFromEval, ''Output Error: '' @ strerror os @ newline)"
  by (simp add: eval_child_def child_outfile_def perror_def)

text \<open>
  Claim C4 says that a child whose redirection cannot be opened reports it and
  terminates. The code reports it and executes \<open>return\<close>: the child does not run the
  program, and it does not terminate either, it goes back to the read loop of \<open>main\<close>.
  Only the failure of \<open>execve\<close> ends the child, by \<open>exit(EXIT_FAILURE)\<close>.
\<close>

theorem child_returns_after_open_failure:
  "eval_child missing_file
       \<lparr>argv = [''/bin/cat''], infile = Some ''/no/such/file'', outfile = None,
        builtins = BUILTIN_NONE\<rparr>
     = (ReturnsFromEval, ''Input Error: No such file or directory'' @ newline)
   \<and> eval_child missing_file
       \<lparr>argv = [''/bin/ls''], infile = None, outfile = Some ''/no/such/file'',
        builtins = BUILTIN_NONE\<rparr>
     = (ReturnsFromEval, ''Output Error: No such file or directory'' @ newline)
   \<and> eval_child missing_file
       \<lparr>argv = [''/no/such/prog''], infile = None, outfile = None, builtins = BUILTIN_NONE\<rparr>
     = (ChildExits 1, ''/no/such/prog: Command not found.'' @ newline)"
  by (simp add: eval_child_def child_outfile_def child_exec_def perror_def missing_file_def)

section \<open>Runs of addjob and deletejob\<close>

subsection \<open>What one step does to the table\<close>

lemma live_update:
  "i < length jl \<Longrightarrow> live (jl[i := v]) = live (take i jl) @ live [v] @ live (drop (Suc i) jl)"
  by (simp add: live_def upd_conv_take_nth_drop)

lemma live_split:
  "i < length jl \<Longrightarrow> live jl = live (take i jl) @ live [jl ! i] @ live (drop (Suc i) jl)"
  using live_update [of i jl "jl ! i"] by simp

lemma live_subset: "set (live jl) \<subseteq> set jl"
  by (auto simp: live_def)

lemma live_fill:
  assumes "i < length jl" and "pid (jl ! i) = 0" and "pid v \<noteq> 0"
  shows "\<exists>A B. live jl = A @ B \<and> live (jl[i := v]) = A @ v # B"
proof (intro exI conjI)
  show "live jl = live (take i jl) @ live (drop (Suc i) jl)"
    using live_split [OF assms(1)] assms(2) by (simp add: live_def)
  show "live (jl[i := v]) = live (take i jl) @ v # live (drop (Suc i) jl)"
    using live_update [OF assms(1), of v] assms(3) by (simp add: live_def)
qed

lemma live_clear:
  assumes "i < length jl"
  shows "\<exists>A B. set (live jl) \<subseteq> set (A @ jl ! i # B) \<and> (pid (jl ! i) \<noteq> 0 \<longrightarrow> live jl = A @ jl ! i # B)
     \<and> (pid (jl ! i) = 0 \<longrightarrow> live jl = A @ B) \<and> live (jl[i := empty_job]) = A @ B"
proof (intro exI conjI impI)
  show "live (jl[i := empty_job]) = live (take i jl) @ live (drop (Suc i) jl)"
    using live_update [OF assms, of empty_job] by (simp add: live_def empty_job_def)
  show "live jl = live (take i jl) @ jl ! i # live (drop (Suc i) jl)" if "pid (jl ! i) \<noteq> 0"
    using live_split [OF assms] that by (simp add: live_def)
  show "live jl = live (take i jl) @ live (drop (Suc i) jl)" if "pid (jl ! i) = 0"
    using live_split [OF assms] that by (simp add: live_def)
  show "set (live jl) \<subseteq> set (live (take i jl) @ jl ! i # live (drop (Suc i) jl))"
    using live_split [OF assms] by (auto simp: live_def)
qed

lemma addjob_cases:
  assumes "addjob pg s p st cmd = (r, s')"
  shows "(r = 0 \<and> job_list s' = job_list s \<and> nextjid s' = nextjid s)
     \<or> (r = 1 \<and> 1 \<le> p
        \<and> (\<exists>i<length (job_list s). pid (job_list s ! i) = 0
             \<and> job_list s' = (job_list s)[i := \<lparr>pid = p, jid = nextjid s, state = st, cmdline = cmd\<rparr>])
        \<and> nextjid s' = (if nextjid s + 1 > MAXJOBS then 1 else nextjid s + 1))"
proof (cases "p < 1")
  case True
  with assms show ?thesis by (simp add: addjob_def)
next
  case False
  show ?thesis
  proof (cases "scan (\<lambda>j. pid j = 0) (job_list s)")
    case None
    with False assms show ?thesis by (auto simp: addjob_def)
  next
    case (Some i)
    then have "i < length (job_list s) \<and> pid (job_list s ! i) = 0"
      by (simp add: scan_Some_iff)
    with False Some assms show ?thesis
      by (auto simp: addjob_def Let_def job_fields)
  qed
qed

lemma deletejob_cases:
  assumes "deletejob s p = (r, s')"
  shows "(r = 0 \<and> s' = s)
     \<or> (r = 1 \<and> 1 \<le> p
        \<and> (\<exists>i<length (job_list s). pid (job_list s ! i) = p
             \<and> job_list s' = (job_list s)[i := empty_job])
        \<and> nextjid s' = maxjid (job_list s') + 1)"
proof (cases "p < 1")
  case True
  with assms show ?thesis by (simp add: deletejob_def)
next
  case False
  show ?thesis
  proof (cases "scan (\<lambda>j. pid j = p) (job_list s)")
    case None
    with False assms show ?thesis by (auto simp: deletejob_def)
  next
    case (Some i)
    then have "i < length (job_list s) \<and> pid (job_list s ! i) = p"
      by (simp add: scan_Some_iff)
    with False Some assms show ?thesis
      by (auto simp: deletejob_def Let_def clearjob_empty)
  qed
qed

lemma maxjid_upper: "j \<in> set jl \<Longrightarrow> jid j \<le> maxjid jl"
  using maxjid_from_upper [of j jl 0] by (simp add: maxjid_def)

lemma maxjid_nonneg: "0 \<le> maxjid jl"
  using maxjid_from_ge [of 0 jl] by (simp add: maxjid_def)

lemma init_live: "live (job_list (init_shell v)) = []"
  by (simp add: init_shell_def initjobs_def live_def clearjob_def filter_empty_conv)

subsection \<open>Pids and the foreground job\<close>

lemma pf_inv_add:
  assumes "pf_inv s" and "p \<notin> set (map pid (live (job_list s)))"
    and "st = FG \<longrightarrow> fg_count (job_list s) = 0"
  shows "pf_inv (snd (addjob pg s p st cmd))"
proof -
  obtain r s' where e: "addjob pg s p st cmd = (r, s')" by (cases "addjob pg s p st cmd")
  from addjob_cases [OF e] show ?thesis
  proof (elim disjE conjE exE)
    assume "job_list s' = job_list s"
    with assms(1) e show ?thesis by (simp add: pf_inv_def)
  next
    fix i
    let ?v = "\<lparr>pid = p, jid = nextjid s, state = st, cmdline = cmd\<rparr>"
    assume i: "i < length (job_list s)" "pid (job_list s ! i) = 0" "job_list s' = (job_list s)[i := ?v]"
      and p: "1 \<le> p"
    from p have "pid ?v \<noteq> 0" by simp
    from live_fill [OF i(1) i(2) this] obtain A B
      where ab: "live (job_list s) = A @ B" "live ((job_list s)[i := ?v]) = A @ ?v # B" by blast
    from assms ab i(3) e show ?thesis
      by (auto simp: pf_inv_def fg_count_def)
  qed
qed

lemma pf_inv_del:
  assumes "pf_inv s"
  shows "pf_inv (snd (deletejob s p))"
proof -
  obtain r s' where e: "deletejob s p = (r, s')" by (cases "deletejob s p")
  from deletejob_cases [OF e] show ?thesis
  proof (elim disjE conjE exE)
    assume "s' = s"
    with assms e show ?thesis by simp
  next
    fix i
    assume i: "i < length (job_list s)" "pid (job_list s ! i) = p" "job_list s' = (job_list s)[i := empty_job]"
      and p: "1 \<le> p"
    from p i(2) have nz: "pid (job_list s ! i) \<noteq> 0" by simp
    from live_clear [OF i(1)] nz obtain A B
      where ab: "live (job_list s) = A @ job_list s ! i # B" "live ((job_list s)[i := empty_job]) = A @ B"
      by blast
    from assms ab i(3) e show ?thesis
      by (auto simp: pf_inv_def fg_count_def split: if_splits)
  qed
qed

lemma pf_inv_run:
  "pf_inv s \<Longrightarrow> callers_ok pg s ops \<Longrightarrow> pf_inv (run pg s ops)"
proof (induction ops arbitrary: s)
  case Nil
  then show ?case by (simp add: run_def)
next
  case (Cons x ops)
  show ?case
  proof (cases x)
    case (Add p st cmd)
    with Cons.prems have "pf_inv (step pg s x)" and "callers_ok pg (step pg s x) ops"
      by (simp_all add: pf_inv_add)
    then have "pf_inv (run pg (step pg s x) ops)" by (rule Cons.IH)
    then show ?thesis by (simp add: run_def)
  next
    case (Del p)
    with Cons.prems have "pf_inv (step pg s x)" and "callers_ok pg (step pg s x) ops"
      by (simp_all add: pf_inv_del)
    then have "pf_inv (run pg (step pg s x) ops)" by (rule Cons.IH)
    then show ?thesis by (simp add: run_def)
  qed
qed

lemma pf_inv_init: "pf_inv (init_shell v)"
  by (simp add: pf_inv_def fg_count_def init_live)

subsection \<open>Job ids\<close>

lemma jid_inv_add:
  assumes "jid_inv s" and "\<not> wraps pg s (Add p st cmd)"
  shows "jid_inv (snd (addjob pg s p st cmd))"
proof -
  obtain r s' where e: "addjob pg s p st cmd = (r, s')" by (cases "addjob pg s p st cmd")
  from addjob_cases [OF e] show ?thesis
  proof (elim disjE conjE exE)
    assume "job_list s' = job_list s" "nextjid s' = nextjid s"
    with assms(1) e show ?thesis by (simp add: jid_inv_def)
  next
    fix i
    let ?v = "\<lparr>pid = p, jid = nextjid s, state = st, cmdline = cmd\<rparr>"
    assume i: "i < length (job_list s)" "pid (job_list s ! i) = 0" "job_list s' = (job_list s)[i := ?v]"
      and p: "1 \<le> p" and r: "r = 1"
      and n: "nextjid s' = (if nextjid s + 1 > MAXJOBS then 1 else nextjid s + 1)"
    from assms(2) e r have "\<not> nextjid s + 1 > MAXJOBS" by (simp add: wraps_def)
    with n have n': "nextjid s' = nextjid s + 1" by simp
    from p have "pid ?v \<noteq> 0" by simp
    from live_fill [OF i(1) i(2) this] obtain A B
      where ab: "live (job_list s) = A @ B" "live ((job_list s)[i := ?v]) = A @ ?v # B" by blast
    have old: "\<forall>j\<in>set (job_list s). jid j < nextjid s"
      using assms(1) by (simp add: jid_inv_def)
    have "set (A @ B) \<subseteq> set (job_list s)"
      using live_subset [of "job_list s"] ab(1) by simp
    with old have fresh: "nextjid s \<notin> jid ` set (A @ B)" by fastforce
    have d: "distinct (map jid (A @ B))" using assms(1) ab(1) by (simp add: jid_inv_def)
    have "distinct (map jid (A @ ?v # B))" using d fresh by auto
    moreover have "\<forall>j\<in>set ((job_list s)[i := ?v]). jid j < nextjid s + 1"
    proof
      fix j assume "j \<in> set ((job_list s)[i := ?v])"
      then have "j = ?v \<or> j \<in> set (job_list s)"
        using set_update_subset_insert [of "job_list s" i ?v] by auto
      with old show "jid j < nextjid s + 1" by fastforce
    qed
    ultimately show ?thesis using e i(3) ab(2) n' by (simp add: jid_inv_def)
  qed
qed

lemma jid_inv_del:
  assumes "jid_inv s"
  shows "jid_inv (snd (deletejob s p))"
proof -
  obtain r s' where e: "deletejob s p = (r, s')" by (cases "deletejob s p")
  from deletejob_cases [OF e] show ?thesis
  proof (elim disjE conjE exE)
    assume "s' = s"
    with assms e show ?thesis by simp
  next
    fix i
    assume i: "i < length (job_list s)" "job_list s' = (job_list s)[i := empty_job]"
      and n: "nextjid s' = maxjid (job_list s') + 1"
    from live_clear [OF i(1)] obtain A B
      where ab: "pid (job_list s ! i) \<noteq> 0 \<longrightarrow> live (job_list s) = A @ job_list s ! i # B"
        "pid (job_list s ! i) = 0 \<longrightarrow> live (job_list s) = A @ B"
        "live ((job_list s)[i := empty_job]) = A @ B"
      by blast
    have "distinct (map jid (live (job_list s)))" using assms by (simp add: jid_inv_def)
    with ab(1,2) have "distinct (map jid (A @ B))"
      by (cases "pid (job_list s ! i) = 0") auto
    with ab(3) i(2) n e show ?thesis
      by (simp add: jid_inv_def maxjid_upper)
  qed
qed

lemma jid_inv_run:
  "jid_inv s \<Longrightarrow> no_wrap pg s ops \<Longrightarrow> jid_inv (run pg s ops)"
proof (induction ops arbitrary: s)
  case Nil
  then show ?case by (simp add: run_def)
next
  case (Cons x ops)
  have "jid_inv (step pg s x)"
  proof (cases x)
    case (Add p st cmd)
    with Cons.prems show ?thesis by (simp add: jid_inv_add)
  next
    case (Del p)
    with Cons.prems show ?thesis by (simp add: jid_inv_del)
  qed
  moreover from Cons.prems have "no_wrap pg (step pg s x) ops" by simp
  ultimately have "jid_inv (run pg (step pg s x) ops)" by (rule Cons.IH)
  then show ?case by (simp add: run_def)
qed

lemma jid_inv_init: "jid_inv (init_shell v)"
  using init_live [of v]
  by (simp add: jid_inv_def) (simp add: init_shell_def initjobs_def clearjob_def MAXJOBS_def)

text \<open>
  Claim C1, as the code has it. From the table at startup, after any run of \<open>addjob\<close> and
  \<open>deletejob\<close> in which every add is given a pid no live entry holds, and the state \<open>FG\<close>
  only when no live entry is in the foreground, at most one live entry is in the
  foreground and the pids of the live entries are pairwise distinct. After any run in
  which no add has wrapped \<open>nextjid\<close> back to 1, the job ids of the live entries are
  pairwise distinct and all below \<open>nextjid\<close>, so the next add assigns an id no live entry
  holds.
\<close>

theorem uniqueness_of_disciplined_runs:
  "(callers_ok pg (init_shell v) ops \<longrightarrow>
      fg_count (job_list (run pg (init_shell v) ops)) \<le> 1
      \<and> distinct (map pid (live (job_list (run pg (init_shell v) ops)))))
   \<and> (no_wrap pg (init_shell v) ops \<longrightarrow>
      distinct (map jid (live (job_list (run pg (init_shell v) ops))))
      \<and> (\<forall>j\<in>set (job_list (run pg (init_shell v) ops)).
            jid j < nextjid (run pg (init_shell v) ops)))"
proof (intro conjI impI)
  assume "callers_ok pg (init_shell v) ops"
  with pf_inv_init have "pf_inv (run pg (init_shell v) ops)" by (rule pf_inv_run)
  then show "fg_count (job_list (run pg (init_shell v) ops)) \<le> 1"
    and "distinct (map pid (live (job_list (run pg (init_shell v) ops))))"
    by (simp_all add: pf_inv_def)
next
  assume "no_wrap pg (init_shell v) ops"
  with jid_inv_init have "jid_inv (run pg (init_shell v) ops)" by (rule jid_inv_run)
  then show "distinct (map jid (live (job_list (run pg (init_shell v) ops))))"
    and "\<forall>j\<in>set (job_list (run pg (init_shell v) ops)).
            jid j < nextjid (run pg (init_shell v) ops)"
    by (simp_all add: jid_inv_def)
qed

text \<open>A run with two foreground jobs, one after the other.\<close>

theorem uniqueness_of_disciplined_runs_witness:
  "fg_count (job_list (run own_pgid (init_shell False) some_ops)) \<le> 1
   \<and> distinct (map pid (live (job_list (run own_pgid (init_shell False) some_ops))))
   \<and> distinct (map jid (live (job_list (run own_pgid (init_shell False) some_ops))))
   \<and> nextjid (run own_pgid (init_shell False) some_ops) = 4"
proof -
  have a: "callers_ok own_pgid (init_shell False) some_ops" by code_simp
  have b: "no_wrap own_pgid (init_shell False) some_ops" by code_simp
  have c: "nextjid (run own_pgid (init_shell False) some_ops) = 4" by code_simp
  from uniqueness_of_disciplined_runs [of own_pgid False some_ops] a b c
  show ?thesis by simp
qed

text \<open>
  Claim C1 as the specification states it, for every run, fails three times: two adds
  with the state \<open>FG\<close> give two foreground entries; two adds of the pid 100 give two
  entries with that pid; and after fifteen adds, the removal of the pid 3 and the add of
  the pid 16, the counter has wrapped to 1, so the add of the pid 17 is given the job id
  1, which the job of the pid 1 still holds (in a run that keeps the discipline of the
  callers).
\<close>

theorem uniqueness_counterexample:
  "fg_count (job_list (run own_pgid (init_shell False) [Add 100 FG ''vi'', Add 200 FG ''ls''])) = 2
   \<and> \<not> distinct (map pid (live (job_list
         (run own_pgid (init_shell False) [Add 100 BG ''vi &'', Add 100 BG ''ls &'']))))
   \<and> callers_ok own_pgid (init_shell False) reuse_ops
   \<and> \<not> distinct (map jid (live (job_list (run own_pgid (init_shell False) reuse_ops))))
   \<and> \<not> uniqueness (job_list (run own_pgid (init_shell False) reuse_ops))"
  by code_simp

subsection \<open>The counter\<close>

lemma counter_inv_add:
  assumes "counter_inv s"
  shows "counter_inv (snd (addjob pg s p st cmd))"
proof -
  obtain r s' where e: "addjob pg s p st cmd = (r, s')" by (cases "addjob pg s p st cmd")
  from addjob_cases [OF e] show ?thesis
  proof (elim disjE conjE exE)
    assume "job_list s' = job_list s" "nextjid s' = nextjid s"
    with assms e show ?thesis by (simp add: counter_inv_def)
  next
    fix i
    let ?v = "\<lparr>pid = p, jid = nextjid s, state = st, cmdline = cmd\<rparr>"
    assume i: "job_list s' = (job_list s)[i := ?v]" and p: "1 \<le> p"
      and n: "nextjid s' = (if nextjid s + 1 > MAXJOBS then 1 else nextjid s + 1)"
    from assms have "slots_clean (job_list s)" by (simp add: counter_inv_def)
    then have "slots_clean ((job_list s)[i := ?v])"
      by (rule slots_clean_update) (use p in simp)
    moreover from assms n have "1 \<le> nextjid s'" by (simp add: counter_inv_def)
    ultimately show ?thesis using e i by (simp add: counter_inv_def)
  qed
qed

lemma counter_inv_del:
  assumes "counter_inv s"
  shows "counter_inv (snd (deletejob s p))"
proof -
  obtain r s' where e: "deletejob s p = (r, s')" by (cases "deletejob s p")
  from deletejob_cases [OF e] show ?thesis
  proof (elim disjE conjE exE)
    assume "s' = s"
    with assms e show ?thesis by simp
  next
    fix i
    assume i: "job_list s' = (job_list s)[i := empty_job]"
      and n: "nextjid s' = maxjid (job_list s') + 1"
    from assms have "slots_clean (job_list s)" by (simp add: counter_inv_def)
    then have "slots_clean ((job_list s)[i := empty_job])"
      by (rule slots_clean_update) (simp add: empty_job_def)
    moreover from n have "1 \<le> nextjid s'" using maxjid_nonneg [of "job_list s'"] by simp
    ultimately show ?thesis using e i by (simp add: counter_inv_def)
  qed
qed

lemma counter_inv_run: "counter_inv s \<Longrightarrow> counter_inv (run pg s ops)"
proof (induction ops arbitrary: s)
  case Nil
  then show ?case by (simp add: run_def)
next
  case (Cons x ops)
  have "counter_inv (step pg s x)"
    using Cons.prems by (cases x) (simp_all add: counter_inv_add counter_inv_del)
  then have "counter_inv (run pg (step pg s x) ops)" by (rule Cons.IH)
  then show ?case by (simp add: run_def)
qed

lemma counter_inv_init: "counter_inv (init_shell v)"
  by (simp add: counter_inv_def init_shell_def initjobs_def clearjob_def slots_clean_def
      list_all_iff)

text \<open>
  Claim C8, as the code has it. In every state reached from the table at startup by
  \<open>addjob\<close> and \<open>deletejob\<close> the counter \<open>nextjid\<close> is at least 1. After a successful add
  it is the old value plus 1, or 1 when that would pass \<open>MAXJOBS\<close>, so it lies between 1
  and \<open>MAXJOBS\<close>. After a successful removal it is the largest job id of the live entries
  plus 1 (and this value is not capped: see the next theorem).
\<close>

theorem nextjid_of_reachable_states:
  "1 \<le> nextjid (run pg (init_shell v) ops)
   \<and> (fst (addjob pg (run pg (init_shell v) ops) p st cmd) = 1 \<longrightarrow>
        nextjid (snd (addjob pg (run pg (init_shell v) ops) p st cmd))
          = (if nextjid (run pg (init_shell v) ops) + 1 > MAXJOBS then 1
             else nextjid (run pg (init_shell v) ops) + 1)
        \<and> 1 \<le> nextjid (snd (addjob pg (run pg (init_shell v) ops) p st cmd))
        \<and> nextjid (snd (addjob pg (run pg (init_shell v) ops) p st cmd)) \<le> MAXJOBS)
   \<and> (fst (deletejob (run pg (init_shell v) ops) q) = 1 \<longrightarrow>
        nextjid (snd (deletejob (run pg (init_shell v) ops) q))
          = max_live_jid (job_list (snd (deletejob (run pg (init_shell v) ops) q))) + 1)"
proof -
  let ?s = "run pg (init_shell v) ops"
  have inv: "counter_inv ?s" using counter_inv_init by (rule counter_inv_run)
  then have one: "1 \<le> nextjid ?s" by (simp add: counter_inv_def)
  have add: "nextjid (snd (addjob pg ?s p st cmd))
          = (if nextjid ?s + 1 > MAXJOBS then 1 else nextjid ?s + 1)
        \<and> 1 \<le> nextjid (snd (addjob pg ?s p st cmd))
        \<and> nextjid (snd (addjob pg ?s p st cmd)) \<le> MAXJOBS"
    if "fst (addjob pg ?s p st cmd) = 1"
  proof -
    obtain r s' where e: "addjob pg ?s p st cmd = (r, s')" by (cases "addjob pg ?s p st cmd")
    with that have "r = 1" by simp
    with addjob_cases [OF e]
    have "nextjid s' = (if nextjid ?s + 1 > MAXJOBS then 1 else nextjid ?s + 1)" by auto
    with one e show ?thesis by (simp add: MAXJOBS_def)
  qed
  have del: "nextjid (snd (deletejob ?s q)) = max_live_jid (job_list (snd (deletejob ?s q))) + 1"
    if "fst (deletejob ?s q) = 1"
  proof -
    obtain r s' where e: "deletejob ?s q = (r, s')" by (cases "deletejob ?s q")
    with that have "r = 1" by simp
    with deletejob_cases [OF e] have "nextjid s' = maxjid (job_list s') + 1" by auto
    moreover have "counter_inv s'" using counter_inv_del [OF inv, of q] e by simp
    then have "maxjid (job_list s') = max_live_jid (job_list s')"
      by (simp add: counter_inv_def maxjid_clean)
    ultimately show ?thesis using e by simp
  qed
  from one add del show ?thesis by blast
qed

text \<open>After fifteen adds the counter is 16: one more add wraps it to 1, and the removal
  of the job 15 sets it to 15.\<close>

theorem nextjid_of_reachable_states_witness:
  "nextjid (run own_pgid (init_shell False) fifteen_adds) = 16
   \<and> nextjid (snd (addjob own_pgid (run own_pgid (init_shell False) fifteen_adds) 16 BG ''ls &'')) = 1
   \<and> nextjid (snd (deletejob (run own_pgid (init_shell False) fifteen_adds) 15)) = 15
   \<and> max_live_jid (job_list (snd (deletejob (run own_pgid (init_shell False) fifteen_adds) 15))) = 14"
proof -
  let ?s = "run own_pgid (init_shell False) fifteen_adds"
  have a: "fst (addjob own_pgid ?s 16 BG ''ls &'') = 1" by code_simp
  have b: "fst (deletejob ?s 15) = 1" by code_simp
  have c: "nextjid ?s = 16" by code_simp
  have d: "max_live_jid (job_list (snd (deletejob ?s 15))) = 14" by code_simp
  from nextjid_of_reachable_states [of own_pgid False fifteen_adds 16 BG "''ls &''" 15] a b c d
  show ?thesis by (simp add: MAXJOBS_def)
qed

text \<open>
  Claim C8 as the specification states it, with the counter never above the capacity,
  fails after sixteen adds and the removal of the pid 1: the largest live job id is 16
  and the counter is 17.
\<close>

theorem nextjid_exceeds_capacity:
  "\<not> nextjid (run own_pgid (init_shell False) (sixteen_adds @ [Del 1])) \<le> MAXJOBS"
  by code_simp

end
